theory Spec2Isabelle
  imports Main
begin

section \<open>Traffic Run: the game state and its transitions\<close>

text \<open>
  The development embeds \<^verbatim>\<open>src/stackr/state.ts\<close> and \<^verbatim>\<open>src/stackr/transitions.ts\<close>.

  Conventions of the embedding:
  \<^item> a JavaScript number that holds an integer is an \<^typ>\<open>int\<close>; the one addition of the
    code is rounded to the nearest double, as the host does above \<open>2^53\<close> (values beyond the
    largest finite double are not modelled);
  \<^item> a string is a \<^typ>\<open>string\<close>; \<^verbatim>\<open>toLowerCase\<close> is modelled on the ASCII letters,
    which covers the address strings it is applied to;
  \<^item> the object \<^verbatim>\<open>state.games\<close> is a map from its own keys to games; reading a property
    that is not an own key gives the member inherited from \<^verbatim>\<open>Object.prototype\<close> when the
    name is one of its members, and \<^verbatim>\<open>undefined\<close> otherwise;
  \<^item> an exception thrown by a handler is a value: the handler returns \<open>Inl\<close> of the error, and
    \<open>Inr\<close> of its result otherwise;
  \<^item> a handler mutates the state it is given and calls \<^verbatim>\<open>emit\<close>; the model returns the
    new state together with the list of emitted events, in the order of emission;
  \<^item> \<^verbatim>\<open>hashMessage\<close> comes from the library \<^verbatim>\<open>ethers\<close>; it is a parameter of the model.
\<close>

subsection \<open>Numbers and strings of the host language\<close>

text \<open>The remainder operator \<^verbatim>\<open>%\<close>: the result takes the sign of the dividend.\<close>

definition js_rem :: "int \<Rightarrow> int \<Rightarrow> int" where
  "js_rem a b = sgn a * (\<bar>a\<bar> mod \<bar>b\<bar>)"

text \<open>
  Addition of two numbers that hold integers: the exact sum, rounded to the nearest double
  (53 significant bits, a tie going to the even significand). \<open>ulp n\<close> is the distance
  between neighbouring doubles at magnitude \<open>n\<close>.
\<close>

fun ulp :: "nat \<Rightarrow> nat" where
  "ulp n = (if n < 9007199254740992 then 1 else 2 * ulp (n div 2))"

declare ulp.simps [simp del]

definition round_double :: "nat \<Rightarrow> nat" where
  "round_double n =
     (let u = ulp n; q = n div u; r = n mod u
      in if 2 * r < u then q * u
         else if u < 2 * r then (q + 1) * u
         else if even q then q * u
         else (q + 1) * u)"

definition js_add :: "int \<Rightarrow> int \<Rightarrow> int" where
  "js_add a b = sgn (a + b) * int (round_double (nat \<bar>a + b\<bar>))"

text \<open>
  Decimal rendering of an integer, as a template literal produces it for a number below
  \<open>10^21\<close> in magnitude.
\<close>

definition digit_char :: "nat \<Rightarrow> char" where
  "digit_char d = ''0123456789'' ! d"

fun show_nat :: "nat \<Rightarrow> string" where
  "show_nat n = (if n < 10 then [digit_char n] else show_nat (n div 10) @ [digit_char (n mod 10)])"

declare show_nat.simps [simp del]

definition show_int :: "int \<Rightarrow> string" where
  "show_int i = (if i < 0 then CHR ''-'' # show_nat (nat (- i)) else show_nat (nat i))"

definition lower_char :: "char \<Rightarrow> char" where
  "lower_char c =
     (case map_of (zip ''ABCDEFGHIJKLMNOPQRSTUVWXYZ'' ''abcdefghijklmnopqrstuvwxyz'') c of
        None \<Rightarrow> c
      | Some l \<Rightarrow> l)"

definition toLowerCase :: "string \<Rightarrow> string" where
  "toLowerCase s = map lower_char s"

subsection \<open>State (state.ts)\<close>

record Obstacle =
  lane :: int
  z :: int

record Game =
  gameId :: string
  owner :: string
  carPosition :: int
  speed :: int
  score :: int
  obstacle :: Obstacle
  isGameOver :: bool
  startedAt :: int
  endedAt :: "int option"

record AppState =
  games :: "string \<rightharpoonup> Game"

definition initialState :: AppState where
  "initialState = \<lparr>games = Map.empty\<rparr>"

subsection \<open>Events\<close>

text \<open>
  The value of an event is a string, a number, or a template literal with a number in one of
  its holes, kept as its parts: the host renders such a number in decimal below \<open>10^21\<close> and
  in exponent notation from there on.
\<close>

datatype part = Lit string | Num int

datatype ev_value = VStr string | VNum int | VTemplate "part list"

datatype event = Emit (name: string) (val: ev_value)

text \<open>The string of a template whose numbers are all in the decimal range.\<close>

fun template_string :: "part list \<Rightarrow> string option" where
  "template_string [] = Some []"
| "template_string (Lit t # ps) = map_option (\<lambda>r. t @ r) (template_string ps)"
| "template_string (Num x # ps) =
     (if \<bar>x\<bar> < 1000000000000000000000
      then map_option (\<lambda>r. show_int x @ r) (template_string ps)
      else None)"

subsection \<open>Transitions (transitions.ts)\<close>

definition generateObstacles :: "int \<Rightarrow> Obstacle" where
  "generateObstacles timestamp = \<lparr>lane = js_rem timestamp 2, z = - 70\<rparr>"

text \<open>The message whose hash is the identifier of a new game.\<close>

definition gameId_message :: "string \<Rightarrow> int \<Rightarrow> nat \<Rightarrow> string" where
  "gameId_message msgSender block_timestamp n =
     msgSender @ ''::'' @ show_int block_timestamp @ ''::'' @ show_nat n"

definition createGame ::
  "(string \<Rightarrow> string) \<Rightarrow> AppState \<Rightarrow> string \<Rightarrow> int \<Rightarrow> int \<Rightarrow> string \<Rightarrow> int \<Rightarrow> AppState \<times> event list" where
  "createGame hashMessage state owner_in initialSpeed startedAt_in msgSender block_timestamp =
     (if toLowerCase msgSender \<noteq> toLowerCase owner_in then
        (state, [Emit ''InvalidSigner'' (VStr (msgSender @ '' is not authorized to create a game.''))])
      else
        let gid = hashMessage (gameId_message msgSender block_timestamp (card (dom (games state))))
        in (state\<lparr>games := (games state)(gid \<mapsto>
              \<lparr>gameId = gid,
               owner = owner_in,
               carPosition = 1,
               speed = initialSpeed,
               score = - 1,
               obstacle = generateObstacles block_timestamp,
               isGameOver = False,
               startedAt = startedAt_in,
               endedAt = None\<rparr>)\<rparr>,
            [Emit ''GameCreated'' (VStr gid)]))"

text \<open>
  Reading \<^verbatim>\<open>state.games[gameId]\<close>. The object is created as \<^verbatim>\<open>{}\<close>, so a name that is not an
  own key is looked up in \<^verbatim>\<open>Object.prototype\<close>; each of its members is a function or an
  object, hence truthy, and has no property \<^verbatim>\<open>owner\<close>.
\<close>

definition Object_prototype_names :: "string list" where
  "Object_prototype_names =
     [''constructor'', ''__defineGetter__'', ''__defineSetter__'', ''hasOwnProperty'',
      ''__lookupGetter__'', ''__lookupSetter__'', ''isPrototypeOf'', ''propertyIsEnumerable'',
      ''toString'', ''valueOf'', ''__proto__'', ''toLocaleString'']"

datatype property = Undefined | Inherited | Own Game

definition games_lookup :: "AppState \<Rightarrow> string \<Rightarrow> property" where
  "games_lookup state gid =
     (case games state gid of
        Some game \<Rightarrow> Own game
      | None \<Rightarrow> if gid \<in> set Object_prototype_names then Inherited else Undefined)"

text \<open>
  In each of the four handlers below, \<^verbatim>\<open>!game\<close> is false for an inherited member, and the
  ownership check then calls \<^verbatim>\<open>toLowerCase\<close> on the \<^verbatim>\<open>undefined\<close> value of \<^verbatim>\<open>game.owner\<close>,
  which throws a \<^verbatim>\<open>TypeError\<close> before anything is emitted or changed.
\<close>

datatype error = TypeError

definition userMove ::
  "AppState \<Rightarrow> string \<Rightarrow> string \<Rightarrow> int \<Rightarrow> string \<Rightarrow> error + AppState \<times> event list" where
  "userMove state gid actionType timestamp msgSender =
     (case games_lookup state gid of
        Undefined \<Rightarrow>
          Inr (state, [Emit ''GameNotFound'' (VStr (''Game ID '' @ gid @ '' does not exist.''))])
      | Inherited \<Rightarrow> Inl TypeError
      | Own game \<Rightarrow>
          if toLowerCase (owner game) \<noteq> toLowerCase msgSender then
            Inr (state, [Emit ''UnauthorizedAction''
               (VStr (msgSender @ '' is not authorized to perform actions in game '' @ gid @ ''.''))])
          else if actionType = ''moveLeft'' then
            (if carPosition game = 1 then
               Inr (state\<lparr>games := (games state)(gid \<mapsto> game\<lparr>carPosition := 0\<rparr>)\<rparr>,
                [Emit ''CarMovedLeft'' (VNum 0)])
             else Inr (state, []))
          else if actionType = ''moveRight'' then
            (if carPosition game = 0 then
               Inr (state\<lparr>games := (games state)(gid \<mapsto> game\<lparr>carPosition := 1\<rparr>)\<rparr>,
                [Emit ''CarMovedRight'' (VNum 1)])
             else Inr (state, []))
          else
            Inr (state, [Emit ''InvalidAction''
               (VStr (''Game '' @ gid @ '': Invalid action type '' @ actionType @ ''.''))]))"

definition generateObstacleAndScoreUpdate ::
  "AppState \<Rightarrow> string \<Rightarrow> int \<Rightarrow> string \<Rightarrow> error + AppState \<times> event list" where
  "generateObstacleAndScoreUpdate state gid timestamp msgSender =
     (case games_lookup state gid of
        Undefined \<Rightarrow>
          Inr (state, [Emit ''GameNotFound'' (VStr (''Game ID '' @ gid @ '' does not exist.''))])
      | Inherited \<Rightarrow> Inl TypeError
      | Own game \<Rightarrow>
          if toLowerCase (owner game) \<noteq> toLowerCase msgSender then
            Inr (state, [Emit ''UnauthorizedAction''
               (VStr (msgSender @ '' is not authorized to update the game '' @ gid @ ''.''))])
          else
            let game1 = game\<lparr>obstacle := generateObstacles timestamp\<rparr>;
                game2 = game1\<lparr>score := js_add (score game1) (speed game1)\<rparr>
            in Inr (state\<lparr>games := (games state)(gid \<mapsto> game2)\<rparr>,
                [Emit ''ObstacleGenerated''
                   (VStr (''New obstacle generated in lane '' @ show_int (js_rem timestamp 2))),
                 Emit ''ScoreUpdated''
                   (VTemplate [Lit ''Game '', Lit gid, Lit '': Score is now '', Num (score game2),
                               Lit ''.''])]))"

definition gameOver ::
  "AppState \<Rightarrow> string \<Rightarrow> bool \<Rightarrow> int \<Rightarrow> string \<Rightarrow> error + AppState \<times> event list" where
  "gameOver state gid over timestamp msgSender =
     (case games_lookup state gid of
        Undefined \<Rightarrow>
          Inr (state, [Emit ''GameNotFound'' (VStr (''Game ID '' @ gid @ '' does not exist.''))])
      | Inherited \<Rightarrow> Inl TypeError
      | Own game \<Rightarrow>
          if toLowerCase (owner game) \<noteq> toLowerCase msgSender then
            Inr (state, [Emit ''UnauthorizedAction''
               (VStr (msgSender @ '' is not authorized to end game '' @ gid @ ''.''))])
          else
            Inr (state\<lparr>games := (games state)(gid \<mapsto>
                   game\<lparr>isGameOver := over, endedAt := Some timestamp\<rparr>)\<rparr>,
             [Emit ''GameOver''
                (VStr (''Game '' @ gid @ '' is now '' @ (if over then ''over'' else ''active'') @ ''.''))]))"

definition resetGame ::
  "AppState \<Rightarrow> string \<Rightarrow> int \<Rightarrow> string \<Rightarrow> int \<Rightarrow> error + AppState \<times> event list" where
  "resetGame state gid timestamp msgSender block_timestamp =
     (case games_lookup state gid of
        Undefined \<Rightarrow>
          Inr (state, [Emit ''GameNotFound'' (VStr (''Game ID '' @ gid @ '' does not exist.''))])
      | Inherited \<Rightarrow> Inl TypeError
      | Own game \<Rightarrow>
          if toLowerCase (owner game) \<noteq> toLowerCase msgSender then
            Inr (state, [Emit ''UnauthorizedReset''
               (VStr (msgSender @ '' is not authorized to reset the game '' @ gid @ ''.''))])
          else
            Inr (state\<lparr>games := (games state)(gid \<mapsto>
               game\<lparr>carPosition := 1,
                    speed := 1,
                    score := 0,
                    obstacle := generateObstacles block_timestamp,
                    isGameOver := False,
                    endedAt := None\<rparr>)\<rparr>,
             [Emit ''GameReset'' (VStr (''Game '' @ gid @ '' has been reset.''))]))"

subsection \<open>The machine (machine.ts): the registry of transitions, applied in sequence\<close>

datatype action =
    CreateGame string int int
  | UserMove string string int
  | ResetGame string int
  | GameOver string bool int
  | GenerateObstacleAndScoreUpdate string int

text \<open>A call is an action with the caller identity and the block timestamp.\<close>

type_synonym call = "action \<times> string \<times> int"

fun transition ::
  "(string \<Rightarrow> string) \<Rightarrow> AppState \<Rightarrow> call \<Rightarrow> error + AppState \<times> event list" where
  "transition h s (CreateGame ow sp st, msgSender, bt) = Inr (createGame h s ow sp st msgSender bt)"
| "transition h s (UserMove gid act ts, msgSender, bt) = userMove s gid act ts msgSender"
| "transition h s (ResetGame gid ts, msgSender, bt) = resetGame s gid ts msgSender bt"
| "transition h s (GameOver gid over ts, msgSender, bt) = gameOver s gid over ts msgSender"
| "transition h s (GenerateObstacleAndScoreUpdate gid ts, msgSender, bt) =
     generateObstacleAndScoreUpdate s gid ts msgSender"

text \<open>
  The store after a call: the state the handler returns, or the store as it was when the
  handler throws (every throw above comes before the first mutation).
\<close>

definition state_after :: "AppState \<Rightarrow> error + AppState \<times> event list \<Rightarrow> AppState" where
  "state_after s r = (case r of Inl e \<Rightarrow> s | Inr (s', evs) \<Rightarrow> s')"

fun run :: "(string \<Rightarrow> string) \<Rightarrow> AppState \<Rightarrow> call list \<Rightarrow> AppState" where
  "run h s [] = s"
| "run h s (c # cs) = run h (state_after s (transition h s c)) cs"

text \<open>The inputs that the schema types as \<^verbatim>\<open>UINT\<close> are non-negative, and so is the block timestamp.\<close>

fun uint_inputs :: "action \<Rightarrow> bool" where
  "uint_inputs (CreateGame ow sp st) = (0 \<le> sp \<and> 0 \<le> st)"
| "uint_inputs (UserMove gid act ts) = (0 \<le> ts)"
| "uint_inputs (ResetGame gid ts) = (0 \<le> ts)"
| "uint_inputs (GameOver gid over ts) = (0 \<le> ts)"
| "uint_inputs (GenerateObstacleAndScoreUpdate gid ts) = (0 \<le> ts)"

fun wf_call :: "call \<Rightarrow> bool" where
  "wf_call (a, msgSender, bt) = (uint_inputs a \<and> 0 \<le> bt)"


subsection \<open>Auxiliary notions for the proofs\<close>

text \<open>Reading a decimal rendering back, to show that the rendering determines the number.\<close>

definition digit_val :: "char \<Rightarrow> nat" where
  "digit_val c = of_char c - 48"

definition read_nat :: "string \<Rightarrow> nat" where
  "read_nat cs = foldl (\<lambda>a c. 10 * a + digit_val c) 0 cs"

text \<open>
  The invariant behind the freshness of identifiers: the store is finite and every key is the
  hash of a message whose counter is below the current number of games.
\<close>

definition keys_counted :: "(string \<Rightarrow> string) \<Rightarrow> AppState \<Rightarrow> bool" where
  "keys_counted h s \<longleftrightarrow>
     finite (dom (games s)) \<and>
     (\<forall>k \<in> dom (games s). \<exists>a t n. n < card (dom (games s)) \<and> k = h (gameId_message a t n))"

text \<open>
  A sample history, used to instantiate the theorems: one game created by its owner at block
  time 7, with an injective stand-in for the hash.
\<close>

definition sample_hash :: "string \<Rightarrow> string" where
  "sample_hash m = ''#'' @ m"

definition sample_calls :: "call list" where
  "sample_calls = [(CreateGame ''0xA'' 2 100, ''0xa'', 7)]"

definition sample_game :: Game where
  "sample_game =
     \<lparr>gameId = ''#0xa::7::0'', owner = ''0xA'', carPosition = 1, speed = 2, score = - 1,
      obstacle = \<lparr>lane = 1, z = - 70\<rparr>, isGameOver = False, startedAt = 100, endedAt = None\<rparr>"

definition sample_store :: AppState where
  "sample_store = \<lparr>games = [''#0xa::7::0'' \<mapsto> sample_game]\<rparr>"

text \<open>The sample store after its owner has ended the game at time 500.\<close>

definition ended_store :: AppState where
  "ended_store =
     \<lparr>games = [''#0xa::7::0'' \<mapsto> sample_game\<lparr>isGameOver := True, endedAt := Some 500\<rparr>]\<rparr>"

text \<open>
  Two further histories, in which the score leaves the range where doubles are exact: a game
  of speed \<open>2^53 - 1\<close> after one score update, and a game of speed 1 after \<open>2^53 + 1\<close> score
  updates.
\<close>

definition score_call :: call where
  "score_call = (GenerateObstacleAndScoreUpdate ''#0xa::7::0'' 8, ''0xa'', 8)"

definition large_speed_calls :: "call list" where
  "large_speed_calls = [(CreateGame ''0xA'' 9007199254740991 100, ''0xa'', 7), score_call]"

definition unit_speed_calls :: "call list" where
  "unit_speed_calls =
     (CreateGame ''0xA'' 1 100, ''0xa'', 7) # replicate 9007199254740993 score_call"

text \<open>The invariants of the reachable stores, and the side conditions on calls.\<close>

definition lanes_ok :: "AppState \<Rightarrow> bool" where
  "lanes_ok s \<longleftrightarrow>
     (\<forall>k g. games s k = Some g \<longrightarrow> carPosition g \<in> {0, 1} \<and> lane (obstacle g) \<in> {0, 1})"

definition speed_ge :: "int \<Rightarrow> AppState \<Rightarrow> bool" where
  "speed_ge b s \<longleftrightarrow> (\<forall>k g. games s k = Some g \<longrightarrow> b \<le> speed g)"

fun initialSpeed_ge :: "int \<Rightarrow> call \<Rightarrow> bool" where
  "initialSpeed_ge b (CreateGame ow sp st, msgSender, bt) = (b \<le> sp)"
| "initialSpeed_ge b (a, msgSender, bt) = True"

text \<open>A call creates a game when it is a \<^verbatim>\<open>createGame\<close> whose signer guard passes.\<close>

fun create_succeeds :: "call \<Rightarrow> bool" where
  "create_succeeds (CreateGame ow sp st, msgSender, bt) = (toLowerCase msgSender = toLowerCase ow)"
| "create_succeeds (a, msgSender, bt) = False"

text \<open>
  The identifier a call addresses: the derived identifier for \<^verbatim>\<open>createGame\<close>, the input
  \<^verbatim>\<open>gameId\<close> for the other transitions.
\<close>

fun addressed :: "(string \<Rightarrow> string) \<Rightarrow> AppState \<Rightarrow> call \<Rightarrow> string" where
  "addressed h s (CreateGame ow sp st, msgSender, bt) =
     h (gameId_message msgSender bt (card (dom (games s))))"
| "addressed h s (UserMove gid act ts, msgSender, bt) = gid"
| "addressed h s (ResetGame gid ts, msgSender, bt) = gid"
| "addressed h s (GameOver gid over ts, msgSender, bt) = gid"
| "addressed h s (GenerateObstacleAndScoreUpdate gid ts, msgSender, bt) = gid"

section \<open>Properties\<close>

subsection \<open>Arithmetic and rendering\<close>

lemma js_rem_nonneg: "0 \<le> t \<Longrightarrow> js_rem t 2 = t mod 2"
  by (cases "t = 0") (simp_all add: js_rem_def)

lemma js_rem_lane: "0 \<le> t \<Longrightarrow> js_rem t 2 = 0 \<or> js_rem t 2 = 1"
  by (simp add: js_rem_nonneg) presburger

lemma digit_char_no_colon: "d < 10 \<Longrightarrow> digit_char d \<noteq> CHR '':''"
  unfolding digit_char_def by (simp add: nth_Cons')

lemma digit_val_char: "d < 10 \<Longrightarrow> digit_val (digit_char d) = d"
  unfolding digit_char_def digit_val_def
  by (simp add: nth_Cons' split: if_splits)

lemma show_nat_no_colon: "CHR '':'' \<notin> set (show_nat n)"
proof (induction n rule: show_nat.induct)
  case (1 n)
  show ?case
  proof (cases "n < 10")
    case True
    then show ?thesis
      using digit_char_no_colon [of n] by (subst show_nat.simps) auto
  next
    case False
    have "n mod 10 < 10" by simp
    then have "digit_char (n mod 10) \<noteq> CHR '':''" by (rule digit_char_no_colon)
    with False 1 show ?thesis
      by (subst show_nat.simps) auto
  qed
qed

lemma read_show_nat: "read_nat (show_nat n) = n"
proof (induction n rule: show_nat.induct)
  case (1 n)
  show ?case
  proof (cases "n < 10")
    case True
    then show ?thesis
      by (subst show_nat.simps) (simp add: read_nat_def digit_val_char)
  next
    case False
    have m: "n mod 10 < 10" by simp
    from False 1 have ih: "read_nat (show_nat (n div 10)) = n div 10" by simp
    have "read_nat (show_nat n) = 10 * read_nat (show_nat (n div 10)) + digit_val (digit_char (n mod 10))"
      using False by (subst show_nat.simps) (simp add: read_nat_def)
    also have "\<dots> = 10 * (n div 10) + n mod 10"
      by (simp add: ih digit_val_char [OF m])
    finally show ?thesis by simp
  qed
qed

lemma show_nat_inj: "show_nat n = show_nat m \<Longrightarrow> n = m"
  by (metis read_show_nat)

lemma last_segment:
  assumes "CHR '':'' \<notin> set u"
  shows "takeWhile (\<lambda>c. c \<noteq> CHR '':'') (rev (p @ ''::'' @ u)) = rev u"
  using assms by (auto simp: takeWhile_tail)

text \<open>Two messages with different counters differ, whatever the caller and the block time.\<close>

lemma gameId_message_count:
  assumes "gameId_message a t n = gameId_message a' t' n'"
  shows "n = n'"
proof -
  let ?tw = "takeWhile (\<lambda>c. c \<noteq> CHR '':'')"
  have eq: "(a @ ''::'' @ show_int t) @ ''::'' @ show_nat n = (a' @ ''::'' @ show_int t') @ ''::'' @ show_nat n'"
    using assms by (simp add: gameId_message_def)
  have "rev (show_nat n) = ?tw (rev ((a @ ''::'' @ show_int t) @ ''::'' @ show_nat n))"
    by (rule last_segment [symmetric]) (rule show_nat_no_colon)
  also have "\<dots> = ?tw (rev ((a' @ ''::'' @ show_int t') @ ''::'' @ show_nat n'))"
    by (simp only: eq)
  also have "\<dots> = rev (show_nat n')"
    by (rule last_segment) (rule show_nat_no_colon)
  finally have "show_nat n = show_nat n'" by simp
  then show ?thesis by (rule show_nat_inj)
qed

text \<open>Below \<open>2^53\<close> in magnitude the addition is exact.\<close>

lemma ulp_small: "n < 9007199254740992 \<Longrightarrow> ulp n = 1"
  by (subst ulp.simps) simp

lemma round_double_exact: "n \<le> 9007199254740992 \<Longrightarrow> round_double n = n"
proof (cases "n < 9007199254740992")
  case True
  then show ?thesis by (simp add: round_double_def ulp_small)
next
  case False
  assume "n \<le> 9007199254740992"
  with False have n: "n = 9007199254740992" by simp
  have "ulp 9007199254740992 = 2"
    by (subst ulp.simps) (simp add: ulp_small)
  with n show ?thesis by (simp add: round_double_def)
qed

lemma js_add_exact: "\<bar>a + b\<bar> \<le> 9007199254740992 \<Longrightarrow> js_add a b = a + b"
proof -
  assume "\<bar>a + b\<bar> \<le> 9007199254740992"
  then have "nat \<bar>a + b\<bar> \<le> 9007199254740992" by simp
  then have "round_double (nat \<bar>a + b\<bar>) = nat \<bar>a + b\<bar>" by (rule round_double_exact)
  then show ?thesis by (simp add: js_add_def mult_sgn_abs)
qed

lemma js_add_samples:
  "js_add 9007199254740990 9007199254740991 = 18014398509481980"
  "js_add 9007199254740992 1 = 9007199254740992"
  by (simp_all add: js_add_def round_double_def ulp.simps Let_def)

subsection \<open>Property reads and results\<close>

lemma games_lookup_own: "games s gid = Some g \<Longrightarrow> games_lookup s gid = Own g"
  by (simp add: games_lookup_def)

lemma games_lookup_undefined:
  "games s gid = None \<Longrightarrow> gid \<notin> set Object_prototype_names \<Longrightarrow> games_lookup s gid = Undefined"
  by (simp add: games_lookup_def)

lemma games_lookup_inherited:
  "games s gid = None \<Longrightarrow> gid \<in> set Object_prototype_names \<Longrightarrow> games_lookup s gid = Inherited"
  by (simp add: games_lookup_def)

lemma state_after_simps:
  "state_after s (Inl e) = s" "state_after s (Inr (s', evs)) = s'"
  by (simp_all add: state_after_def)

subsection \<open>The sample history, evaluated\<close>

lemma lower_samples:
  "toLowerCase ''0xA'' = ''0xa''" "toLowerCase ''0xa'' = ''0xa''" "toLowerCase ''0xB'' = ''0xb''"
  by (simp_all add: toLowerCase_def lower_char_def)

lemma show_samples: "show_int 0 = ''0''" "show_int 1 = ''1''" "show_int 7 = ''7''" "show_nat 0 = ''0''"
  "show_nat 1 = ''1''"
  by (simp_all add: show_int_def show_nat.simps digit_char_def)

lemma js_rem_samples: "js_rem 8 2 = 0" "js_rem 9 2 = 1" "js_rem 7 2 = 1"
  by (simp_all add: js_rem_def)

lemma sample_run: "run sample_hash initialState sample_calls = sample_store"
  by (simp add: sample_calls_def sample_store_def sample_game_def createGame_def initialState_def
      lower_samples gameId_message_def show_samples generateObstacles_def js_rem_samples
      sample_hash_def state_after_simps Let_def)

lemma sample_lookup: "games sample_store ''#0xa::7::0'' = Some sample_game"
  by (simp add: sample_store_def)

lemma sample_lookup_inherited:
  "games sample_store ''constructor'' = None" "''constructor'' \<in> set Object_prototype_names"
  "games sample_store ''toString'' = None" "''toString'' \<in> set Object_prototype_names"
  "games sample_store ''__proto__'' = None" "''__proto__'' \<in> set Object_prototype_names"
  by (simp_all add: sample_store_def Object_prototype_names_def)

lemma sample_owner: "toLowerCase (owner sample_game) = toLowerCase ''0xa''"
  by (simp add: sample_game_def lower_samples)

lemma inj_sample_hash: "inj sample_hash"
  by (simp add: inj_def sample_hash_def)

lemma ended_store_run:
  "run sample_hash initialState (sample_calls @ [(GameOver ''#0xa::7::0'' True 500, ''0xa'', 9)]) =
     ended_store"
proof -
  have "run sample_hash initialState (sample_calls @ [(GameOver ''#0xa::7::0'' True 500, ''0xa'', 9)])
      = state_after (run sample_hash initialState sample_calls)
          (gameOver (run sample_hash initialState sample_calls) ''#0xa::7::0'' True 500 ''0xa'')"
    by (simp add: sample_calls_def)
  also have "\<dots> = ended_store"
    unfolding sample_run
    by (simp add: gameOver_def games_lookup_own [OF sample_lookup] sample_owner ended_store_def
        state_after_simps) (simp add: sample_store_def)
  finally show ?thesis .
qed

lemma wf_sample_calls: "\<forall>c \<in> set sample_calls. wf_call c"
  by (simp add: sample_calls_def)

lemma card_sample_store: "card (dom (games sample_store)) = 1"
  by (simp add: sample_store_def)

subsection \<open>Guard failures\<close>

text \<open>
  What the guards do. A \<^verbatim>\<open>createGame\<close> by a caller that differs from the owner given
  (after lower-casing) returns the store as it was and emits \<^verbatim>\<open>InvalidSigner\<close>. The other
  four transitions return the store as it was and emit \<^verbatim>\<open>GameNotFound\<close> when the identifier
  is neither a key of the store nor a member of \<^verbatim>\<open>Object.prototype\<close>, whoever the caller is,
  and \<^verbatim>\<open>UnauthorizedAction\<close> (\<^verbatim>\<open>UnauthorizedReset\<close> for \<^verbatim>\<open>resetGame\<close>) when the game exists
  and its owner differs from the caller after lower-casing. When the identifier is not a key
  but names a member of \<^verbatim>\<open>Object.prototype\<close>, they throw.
\<close>

lemma guard_failures:
  "(toLowerCase msgSender \<noteq> toLowerCase ow \<longrightarrow>
      createGame h s ow sp st msgSender bt =
        (s, [Emit ''InvalidSigner'' (VStr (msgSender @ '' is not authorized to create a game.''))]))
   \<and> (games s gid = None \<and> gid \<notin> set Object_prototype_names \<longrightarrow>
        userMove s gid act ts msgSender =
          Inr (s, [Emit ''GameNotFound'' (VStr (''Game ID '' @ gid @ '' does not exist.''))])
      \<and> generateObstacleAndScoreUpdate s gid ts msgSender =
          Inr (s, [Emit ''GameNotFound'' (VStr (''Game ID '' @ gid @ '' does not exist.''))])
      \<and> gameOver s gid over ts msgSender =
          Inr (s, [Emit ''GameNotFound'' (VStr (''Game ID '' @ gid @ '' does not exist.''))])
      \<and> resetGame s gid ts msgSender bt =
          Inr (s, [Emit ''GameNotFound'' (VStr (''Game ID '' @ gid @ '' does not exist.''))]))
   \<and> (games s gid = Some g \<and> toLowerCase (owner g) \<noteq> toLowerCase msgSender \<longrightarrow>
        userMove s gid act ts msgSender =
          Inr (s, [Emit ''UnauthorizedAction''
                 (VStr (msgSender @ '' is not authorized to perform actions in game '' @ gid @ ''.''))])
      \<and> generateObstacleAndScoreUpdate s gid ts msgSender =
          Inr (s, [Emit ''UnauthorizedAction''
                 (VStr (msgSender @ '' is not authorized to update the game '' @ gid @ ''.''))])
      \<and> gameOver s gid over ts msgSender =
          Inr (s, [Emit ''UnauthorizedAction''
                 (VStr (msgSender @ '' is not authorized to end game '' @ gid @ ''.''))])
      \<and> resetGame s gid ts msgSender bt =
          Inr (s, [Emit ''UnauthorizedReset''
                 (VStr (msgSender @ '' is not authorized to reset the game '' @ gid @ ''.''))]))"
  by (simp add: createGame_def userMove_def generateObstacleAndScoreUpdate_def gameOver_def
      resetGame_def games_lookup_def)

lemma inherited_member_throws:
  assumes "games s gid = None" and "gid \<in> set Object_prototype_names"
  shows "userMove s gid act ts msgSender = Inl TypeError"
    and "generateObstacleAndScoreUpdate s gid ts msgSender = Inl TypeError"
    and "gameOver s gid over ts msgSender = Inl TypeError"
    and "resetGame s gid ts msgSender bt = Inl TypeError"
  using assms
  by (simp_all add: userMove_def generateObstacleAndScoreUpdate_def gameOver_def resetGame_def
      games_lookup_def)

text \<open>
  Claim C1. The claim asks for \<^verbatim>\<open>GameNotFound\<close> and an unchanged store whenever the identifier
  is absent from the store. The handlers miss that for an identifier that names a member of
  \<^verbatim>\<open>Object.prototype\<close>: with the identifier \<^verbatim>\<open>constructor\<close>, which is not a key of the sample
  store, each of the four handlers throws a \<^verbatim>\<open>TypeError\<close> and emits nothing (likewise for
  \<^verbatim>\<open>toString\<close> and \<^verbatim>\<open>__proto__\<close>); the store is left as it was.
\<close>

theorem absent_gameId_throws:
  "games sample_store ''constructor'' = None
   \<and> userMove sample_store ''constructor'' ''moveLeft'' 5 ''0xa'' = Inl TypeError
   \<and> generateObstacleAndScoreUpdate sample_store ''constructor'' 8 ''0xa'' = Inl TypeError
   \<and> gameOver sample_store ''constructor'' True 500 ''0xa'' = Inl TypeError
   \<and> resetGame sample_store ''constructor'' 5 ''0xa'' 8 = Inl TypeError
   \<and> userMove sample_store ''toString'' ''moveLeft'' 5 ''0xa'' = Inl TypeError
   \<and> userMove sample_store ''__proto__'' ''moveLeft'' 5 ''0xa'' = Inl TypeError
   \<and> state_after sample_store (userMove sample_store ''constructor'' ''moveLeft'' 5 ''0xa'') =
       sample_store"
  by (simp add: sample_lookup_inherited inherited_member_throws state_after_simps)

subsection \<open>Effects of the transitions once the guards pass\<close>

text \<open>
  Claim C2. When the game exists and the caller is its owner, \<^verbatim>\<open>userMove\<close> follows the table:
  \<^verbatim>\<open>moveLeft\<close> at position 1 sets the position to 0 and emits \<^verbatim>\<open>CarMovedLeft\<close> with value 0;
  \<^verbatim>\<open>moveLeft\<close> at position 0 changes nothing and emits nothing; \<^verbatim>\<open>moveRight\<close> at position 0
  sets the position to 1 and emits \<^verbatim>\<open>CarMovedRight\<close> with value 1; \<^verbatim>\<open>moveRight\<close> at
  position 1 changes nothing and emits nothing; any other action type leaves the store as it
  was and emits \<^verbatim>\<open>InvalidAction\<close>. The new store differs from the old one at most in the
  \<^verbatim>\<open>carPosition\<close> of the addressed game.
\<close>

theorem userMove_table:
  assumes "games s gid = Some g" and "toLowerCase (owner g) = toLowerCase msgSender"
  shows "(carPosition g = 1 \<longrightarrow>
            userMove s gid ''moveLeft'' ts msgSender =
              Inr (s\<lparr>games := (games s)(gid \<mapsto> g\<lparr>carPosition := 0\<rparr>)\<rparr>, [Emit ''CarMovedLeft'' (VNum 0)]))
       \<and> (carPosition g = 0 \<longrightarrow> userMove s gid ''moveLeft'' ts msgSender = Inr (s, []))
       \<and> (carPosition g = 0 \<longrightarrow>
            userMove s gid ''moveRight'' ts msgSender =
              Inr (s\<lparr>games := (games s)(gid \<mapsto> g\<lparr>carPosition := 1\<rparr>)\<rparr>, [Emit ''CarMovedRight'' (VNum 1)]))
       \<and> (carPosition g = 1 \<longrightarrow> userMove s gid ''moveRight'' ts msgSender = Inr (s, []))
       \<and> (act \<noteq> ''moveLeft'' \<and> act \<noteq> ''moveRight'' \<longrightarrow>
            userMove s gid act ts msgSender =
              Inr (s, [Emit ''InvalidAction'' (VStr (''Game '' @ gid @ '': Invalid action type '' @ act @ ''.''))]))"
  using assms by (simp add: userMove_def games_lookup_own)

theorem userMove_table_witness:
  "games sample_store ''#0xa::7::0'' = Some sample_game
   \<and> toLowerCase (owner sample_game) = toLowerCase ''0xa''
   \<and> carPosition sample_game = 1
   \<and> userMove sample_store ''#0xa::7::0'' ''moveLeft'' 5 ''0xa'' =
       Inr (sample_store\<lparr>games := [''#0xa::7::0'' \<mapsto> sample_game\<lparr>carPosition := 0\<rparr>]\<rparr>,
        [Emit ''CarMovedLeft'' (VNum 0)])
   \<and> userMove sample_store ''#0xa::7::0'' ''moveRight'' 5 ''0xa'' = Inr (sample_store, [])
   \<and> ''accelerate'' \<noteq> ''moveLeft'' \<and> ''accelerate'' \<noteq> ''moveRight''
   \<and> userMove sample_store ''#0xa::7::0'' ''accelerate'' 5 ''0xa'' =
       Inr (sample_store, [Emit ''InvalidAction'' (VStr ''Game #0xa::7::0: Invalid action type accelerate.'')])
   \<and> carPosition (sample_game\<lparr>carPosition := 0\<rparr>) = 0
   \<and> userMove (sample_store\<lparr>games := [''#0xa::7::0'' \<mapsto> sample_game\<lparr>carPosition := 0\<rparr>]\<rparr>)
         ''#0xa::7::0'' ''moveLeft'' 6 ''0xa'' =
       Inr (sample_store\<lparr>games := [''#0xa::7::0'' \<mapsto> sample_game\<lparr>carPosition := 0\<rparr>]\<rparr>, [])
   \<and> userMove (sample_store\<lparr>games := [''#0xa::7::0'' \<mapsto> sample_game\<lparr>carPosition := 0\<rparr>]\<rparr>)
         ''#0xa::7::0'' ''moveRight'' 6 ''0xa'' =
       Inr (sample_store\<lparr>games := [''#0xa::7::0'' \<mapsto> sample_game\<lparr>carPosition := 1\<rparr>]\<rparr>,
        [Emit ''CarMovedRight'' (VNum 1)])"
proof -
  let ?g0 = "sample_game\<lparr>carPosition := 0\<rparr>"
  let ?s0 = "sample_store\<lparr>games := [''#0xa::7::0'' \<mapsto> ?g0]\<rparr>"
  have pos: "carPosition sample_game = 1" by (simp add: sample_game_def)
  have upd: "(games sample_store)(''#0xa::7::0'' \<mapsto> g) = [''#0xa::7::0'' \<mapsto> g]" for g
    by (simp add: sample_store_def)
  have l0: "games ?s0 ''#0xa::7::0'' = Some ?g0" by simp
  have o0: "toLowerCase (owner ?g0) = toLowerCase ''0xa''"
    using sample_owner by simp
  have a: "userMove sample_store ''#0xa::7::0'' ''moveLeft'' 5 ''0xa'' =
       Inr (sample_store\<lparr>games := [''#0xa::7::0'' \<mapsto> ?g0]\<rparr>, [Emit ''CarMovedLeft'' (VNum 0)])
   \<and> userMove sample_store ''#0xa::7::0'' ''moveRight'' 5 ''0xa'' = Inr (sample_store, [])
   \<and> userMove sample_store ''#0xa::7::0'' ''accelerate'' 5 ''0xa'' =
       Inr (sample_store, [Emit ''InvalidAction'' (VStr ''Game #0xa::7::0: Invalid action type accelerate.'')])"
    using pos userMove_table [OF sample_lookup sample_owner, of 5 "''accelerate''"]
    by (simp add: upd)
  have b: "userMove ?s0 ''#0xa::7::0'' ''moveLeft'' 6 ''0xa'' = Inr (?s0, [])
   \<and> userMove ?s0 ''#0xa::7::0'' ''moveRight'' 6 ''0xa'' =
       Inr (sample_store\<lparr>games := [''#0xa::7::0'' \<mapsto> sample_game\<lparr>carPosition := 1\<rparr>]\<rparr>,
        [Emit ''CarMovedRight'' (VNum 1)])"
    using userMove_table [OF l0 o0, of 6 "''moveLeft''"]
    by simp
  from sample_lookup sample_owner pos a b show ?thesis
    by simp
qed

text \<open>
  Claim C3, amended. When the guards pass, \<^verbatim>\<open>generateObstacleAndScoreUpdate\<close> applies its
  effect whatever the other fields hold (\<^verbatim>\<open>isGameOver\<close> is not consulted): the obstacle becomes
  lane (timestamp mod 2, for a non-negative timestamp) at distance -70, the score becomes the
  sum of the old score and the current speed as the host computes it, that is, rounded to the
  nearest double, an \<^verbatim>\<open>ObstacleGenerated\<close> event and then a \<^verbatim>\<open>ScoreUpdated\<close> event carrying
  the new score are emitted, and nothing else changes. While the exact sum is at most \<open>2^53\<close>
  in magnitude, the new score is exactly the old score plus the speed, the message shows it in
  decimal, and for the positive speed of a game the score strictly increases.
\<close>

theorem generateObstacleAndScoreUpdate_effect:
  assumes "games s gid = Some g" and "toLowerCase (owner g) = toLowerCase msgSender"
  shows "generateObstacleAndScoreUpdate s gid ts msgSender =
           Inr (s\<lparr>games := (games s)(gid \<mapsto>
                  g\<lparr>obstacle := \<lparr>lane = js_rem ts 2, z = - 70\<rparr>,
                    score := js_add (score g) (speed g)\<rparr>)\<rparr>,
                [Emit ''ObstacleGenerated''
                   (VStr (''New obstacle generated in lane '' @ show_int (js_rem ts 2))),
                 Emit ''ScoreUpdated''
                   (VTemplate [Lit ''Game '', Lit gid, Lit '': Score is now '',
                               Num (js_add (score g) (speed g)), Lit ''.''])])
       \<and> (0 \<le> ts \<longrightarrow> js_rem ts 2 = ts mod 2)
       \<and> (\<bar>score g + speed g\<bar> \<le> 9007199254740992 \<longrightarrow>
            js_add (score g) (speed g) = score g + speed g
          \<and> template_string [Lit ''Game '', Lit gid, Lit '': Score is now '',
                              Num (js_add (score g) (speed g)), Lit ''.''] =
              Some (''Game '' @ gid @ '': Score is now '' @ show_int (score g + speed g) @ ''.'')
          \<and> (0 < speed g \<longrightarrow> score g < js_add (score g) (speed g)))"
  using assms
  by (simp add: generateObstacleAndScoreUpdate_def games_lookup_own generateObstacles_def
      js_rem_nonneg js_add_exact Let_def)

theorem generateObstacleAndScoreUpdate_effect_witness:
  "games ended_store ''#0xa::7::0'' = Some (sample_game\<lparr>isGameOver := True, endedAt := Some 500\<rparr>)
   \<and> toLowerCase (owner (sample_game\<lparr>isGameOver := True, endedAt := Some 500\<rparr>)) = toLowerCase ''0xa''
   \<and> isGameOver (sample_game\<lparr>isGameOver := True, endedAt := Some 500\<rparr>)
   \<and> generateObstacleAndScoreUpdate ended_store ''#0xa::7::0'' 8 ''0xa'' =
       Inr (ended_store\<lparr>games := (games ended_store)(''#0xa::7::0'' \<mapsto>
              sample_game\<lparr>isGameOver := True, endedAt := Some 500,
                           obstacle := \<lparr>lane = 0, z = - 70\<rparr>, score := 1\<rparr>)\<rparr>,
            [Emit ''ObstacleGenerated'' (VStr ''New obstacle generated in lane 0''),
             Emit ''ScoreUpdated''
               (VTemplate [Lit ''Game '', Lit ''#0xa::7::0'', Lit '': Score is now '', Num 1, Lit ''.''])])
   \<and> template_string [Lit ''Game '', Lit ''#0xa::7::0'', Lit '': Score is now '', Num 1, Lit ''.''] =
       Some ''Game #0xa::7::0: Score is now 1.''
   \<and> (0::int) \<le> 8
   \<and> \<bar>score (sample_game\<lparr>isGameOver := True, endedAt := Some 500\<rparr>)
        + speed (sample_game\<lparr>isGameOver := True, endedAt := Some 500\<rparr>)\<bar> \<le> 9007199254740992
   \<and> 0 < speed (sample_game\<lparr>isGameOver := True, endedAt := Some 500\<rparr>)
   \<and> score (sample_game\<lparr>isGameOver := True, endedAt := Some 500\<rparr>) < 1"
proof -
  let ?g = "sample_game\<lparr>isGameOver := True, endedAt := Some 500\<rparr>"
  have l: "games ended_store ''#0xa::7::0'' = Some ?g"
    by (simp add: ended_store_def)
  have o: "toLowerCase (owner ?g) = toLowerCase ''0xa''"
    using sample_owner by simp
  have sc: "score sample_game = - 1" "speed sample_game = 2"
    by (simp_all add: sample_game_def)
  have ad: "js_add (- 1) 2 = 1"
    by (simp add: js_add_exact)
  show ?thesis
    using l o generateObstacleAndScoreUpdate_effect [OF l o, of 8]
    by (simp add: sc ad show_samples js_rem_samples)
qed

text \<open>
  Claim C5. When the guards pass, \<^verbatim>\<open>gameOver\<close> sets \<^verbatim>\<open>isGameOver\<close> to the input \<^verbatim>\<open>over\<close> and
  \<^verbatim>\<open>endedAt\<close> to the input timestamp, whatever the value of \<^verbatim>\<open>over\<close> (so also for
  \<^verbatim>\<open>over = false\<close>), and emits one \<^verbatim>\<open>GameOver\<close> event that says "over" or "active"; nothing
  else in the store changes.
\<close>

theorem gameOver_effect:
  assumes "games s gid = Some g" and "toLowerCase (owner g) = toLowerCase msgSender"
  shows "gameOver s gid over ts msgSender =
           Inr (s\<lparr>games := (games s)(gid \<mapsto> g\<lparr>isGameOver := over, endedAt := Some ts\<rparr>)\<rparr>,
            [Emit ''GameOver'' (VStr (''Game '' @ gid @ '' is now '' @ (if over then ''over'' else ''active'') @ ''.''))])"
  using assms by (simp add: gameOver_def games_lookup_own)

theorem gameOver_effect_witness:
  "games sample_store ''#0xa::7::0'' = Some sample_game
   \<and> toLowerCase (owner sample_game) = toLowerCase ''0xa''
   \<and> gameOver sample_store ''#0xa::7::0'' False 500 ''0xa'' =
       Inr (sample_store\<lparr>games := (games sample_store)(''#0xa::7::0'' \<mapsto>
            sample_game\<lparr>isGameOver := False, endedAt := Some 500\<rparr>)\<rparr>,
        [Emit ''GameOver'' (VStr ''Game #0xa::7::0 is now active.'')])"
  using sample_lookup sample_owner
    gameOver_effect [OF sample_lookup sample_owner, of False 500]
  by simp

text \<open>
  Claim C6. When the guards pass, \<^verbatim>\<open>resetGame\<close> rebuilds the game: \<^verbatim>\<open>gameId\<close>, \<^verbatim>\<open>owner\<close> and
  \<^verbatim>\<open>startedAt\<close> are those of the current record, \<^verbatim>\<open>carPosition\<close> is 1, \<^verbatim>\<open>speed\<close> is 1,
  \<^verbatim>\<open>score\<close> is 0, \<^verbatim>\<open>isGameOver\<close> is false, \<^verbatim>\<open>endedAt\<close> is null, and the obstacle is in lane
  (block timestamp mod 2) at distance -70. The timestamp among the inputs has no influence on
  the result. One \<^verbatim>\<open>GameReset\<close> event is emitted.
\<close>

theorem resetGame_effect:
  assumes "games s gid = Some g" and "toLowerCase (owner g) = toLowerCase msgSender"
  shows "resetGame s gid ts msgSender bt =
           Inr (s\<lparr>games := (games s)(gid \<mapsto>
                \<lparr>gameId = gameId g, owner = owner g, carPosition = 1, speed = 1, score = 0,
                 obstacle = \<lparr>lane = js_rem bt 2, z = - 70\<rparr>, isGameOver = False,
                 startedAt = startedAt g, endedAt = None\<rparr>)\<rparr>,
            [Emit ''GameReset'' (VStr (''Game '' @ gid @ '' has been reset.''))])
       \<and> (0 \<le> bt \<longrightarrow> js_rem bt 2 = bt mod 2)
       \<and> resetGame s gid ts' msgSender bt = resetGame s gid ts msgSender bt"
  using assms
  by (cases g) (simp add: resetGame_def games_lookup_own generateObstacles_def js_rem_nonneg)

theorem resetGame_effect_witness:
  "games sample_store ''#0xa::7::0'' = Some sample_game
   \<and> toLowerCase (owner sample_game) = toLowerCase ''0xa''
   \<and> resetGame sample_store ''#0xa::7::0'' 5 ''0xa'' 8 =
       Inr (sample_store\<lparr>games := (games sample_store)(''#0xa::7::0'' \<mapsto>
            \<lparr>gameId = ''#0xa::7::0'', owner = ''0xA'', carPosition = 1, speed = 1, score = 0,
             obstacle = \<lparr>lane = 0, z = - 70\<rparr>, isGameOver = False,
             startedAt = 100, endedAt = None\<rparr>)\<rparr>,
        [Emit ''GameReset'' (VStr ''Game #0xa::7::0 has been reset.'')])
   \<and> (0::int) \<le> 8
   \<and> resetGame sample_store ''#0xa::7::0'' 999 ''0xa'' 8 = resetGame sample_store ''#0xa::7::0'' 5 ''0xa'' 8"
proof -
  have f: "gameId sample_game = ''#0xa::7::0''" "owner sample_game = ''0xA''" "startedAt sample_game = 100"
    by (simp_all add: sample_game_def)
  show ?thesis
    using sample_lookup sample_owner
      resetGame_effect [OF sample_lookup sample_owner, of 5 8 999]
    by (simp add: f js_rem_samples)
qed

text \<open>
  Claim C9. After a \<^verbatim>\<open>resetGame\<close> that passes the guards, a second \<^verbatim>\<open>resetGame\<close> of the same
  game by the same caller passes them too and gives the same fields (\<^verbatim>\<open>carPosition\<close> 1, speed 1,
  score 0, \<^verbatim>\<open>isGameOver\<close> false, \<^verbatim>\<open>endedAt\<close> null, and the \<^verbatim>\<open>gameId\<close>, \<^verbatim>\<open>owner\<close> and
  \<^verbatim>\<open>startedAt\<close> of the game before the first reset); only the obstacle follows the block
  timestamp of each call, and with equal block timestamps the second reset changes nothing.
\<close>

theorem resetGame_twice:
  assumes "games s gid = Some g" and "toLowerCase (owner g) = toLowerCase msgSender"
    and "s1 = state_after s (resetGame s gid ts1 msgSender bt1)"
    and "s2 = state_after s1 (resetGame s1 gid ts2 msgSender bt2)"
  shows "games s1 gid =
           Some \<lparr>gameId = gameId g, owner = owner g, carPosition = 1, speed = 1, score = 0,
                 obstacle = generateObstacles bt1, isGameOver = False,
                 startedAt = startedAt g, endedAt = None\<rparr>
       \<and> games s2 gid =
           Some \<lparr>gameId = gameId g, owner = owner g, carPosition = 1, speed = 1, score = 0,
                 obstacle = generateObstacles bt2, isGameOver = False,
                 startedAt = startedAt g, endedAt = None\<rparr>
       \<and> resetGame s1 gid ts2 msgSender bt2 =
           Inr (s2, [Emit ''GameReset'' (VStr (''Game '' @ gid @ '' has been reset.''))])
       \<and> (\<forall>k. k \<noteq> gid \<longrightarrow> games s2 k = games s1 k)
       \<and> (bt1 = bt2 \<longrightarrow> s2 = s1)"
  using assms
  by (cases g) (simp add: resetGame_def games_lookup_def state_after_simps)

theorem resetGame_twice_witness:
  "games sample_store ''#0xa::7::0'' = Some sample_game
   \<and> toLowerCase (owner sample_game) = toLowerCase ''0xa''
   \<and> games (state_after (state_after sample_store (resetGame sample_store ''#0xa::7::0'' 5 ''0xa'' 8))
        (resetGame (state_after sample_store (resetGame sample_store ''#0xa::7::0'' 5 ''0xa'' 8))
           ''#0xa::7::0'' 6 ''0xa'' 9))
        ''#0xa::7::0'' =
       Some \<lparr>gameId = ''#0xa::7::0'', owner = ''0xA'', carPosition = 1, speed = 1, score = 0,
             obstacle = \<lparr>lane = 1, z = - 70\<rparr>, isGameOver = False, startedAt = 100, endedAt = None\<rparr>
   \<and> state_after (state_after sample_store (resetGame sample_store ''#0xa::7::0'' 5 ''0xa'' 8))
        (resetGame (state_after sample_store (resetGame sample_store ''#0xa::7::0'' 5 ''0xa'' 8))
           ''#0xa::7::0'' 6 ''0xa'' 8) =
       state_after sample_store (resetGame sample_store ''#0xa::7::0'' 5 ''0xa'' 8)"
proof -
  let ?s1 = "state_after sample_store (resetGame sample_store ''#0xa::7::0'' 5 ''0xa'' 8)"
  have f: "gameId sample_game = ''#0xa::7::0''" "owner sample_game = ''0xA''" "startedAt sample_game = 100"
    by (simp_all add: sample_game_def)
  have o: "generateObstacles 9 = \<lparr>lane = 1, z = - 70\<rparr>"
    by (simp add: generateObstacles_def js_rem_samples)
  from resetGame_twice [OF sample_lookup sample_owner refl refl, of 5 8 6 9]
  have a: "games (state_after ?s1 (resetGame ?s1 ''#0xa::7::0'' 6 ''0xa'' 9)) ''#0xa::7::0'' =
       Some \<lparr>gameId = ''#0xa::7::0'', owner = ''0xA'', carPosition = 1, speed = 1, score = 0,
             obstacle = \<lparr>lane = 1, z = - 70\<rparr>, isGameOver = False, startedAt = 100, endedAt = None\<rparr>"
    by (simp add: f o)
  from resetGame_twice [OF sample_lookup sample_owner refl refl, of 5 8 6 8]
  have b: "state_after ?s1 (resetGame ?s1 ''#0xa::7::0'' 6 ''0xa'' 8) = ?s1"
    by simp
  from sample_lookup sample_owner a b show ?thesis
    by (intro conjI)
qed

subsection \<open>Lanes in the reachable stores\<close>

lemma transition_lanes_ok:
  assumes "wf_call c" and "lanes_ok s"
  shows "lanes_ok (state_after s (transition h s c))"
proof -
  obtain a m bt where c: "c = (a, m, bt)" by (cases c)
  show ?thesis
  proof (cases a)
    case (CreateGame ow sp st)
    with assms c js_rem_lane [of bt] show ?thesis
      by (auto simp: lanes_ok_def state_after_def createGame_def generateObstacles_def Let_def)
  next
    case (UserMove gid act ts)
    with assms c show ?thesis
      by (auto simp: lanes_ok_def userMove_def games_lookup_def state_after_def split: option.splits if_splits)
  next
    case (ResetGame gid ts)
    with assms c js_rem_lane [of bt] show ?thesis
      by (auto simp: lanes_ok_def resetGame_def games_lookup_def state_after_def generateObstacles_def split: option.splits if_splits)
  next
    case (GameOver gid over ts)
    with assms c show ?thesis
      by (auto simp: lanes_ok_def gameOver_def games_lookup_def state_after_def split: option.splits if_splits)
  next
    case (GenerateObstacleAndScoreUpdate gid ts)
    with assms c js_rem_lane [of ts] show ?thesis
      by (auto simp: lanes_ok_def generateObstacleAndScoreUpdate_def games_lookup_def state_after_def generateObstacles_def Let_def
          split: option.splits if_splits)
  qed
qed

lemma run_lanes_ok:
  "\<forall>c \<in> set cs. wf_call c \<Longrightarrow> lanes_ok s \<Longrightarrow> lanes_ok (run h s cs)"
  by (induction cs arbitrary: s) (simp_all add: transition_lanes_ok)

lemma lanes_ok_initial: "lanes_ok initialState"
  by (simp add: lanes_ok_def initialState_def)

text \<open>
  Claim C7. In every store reached from the initial one by calls whose \<^verbatim>\<open>UINT\<close> inputs and block
  timestamps are non-negative, every game has \<^verbatim>\<open>carPosition\<close> in {0, 1} and an obstacle lane
  in {0, 1}.
\<close>

theorem lanes_in_range:
  assumes "\<forall>c \<in> set cs. wf_call c" and "games (run h initialState cs) k = Some g"
  shows "carPosition g \<in> {0, 1} \<and> lane (obstacle g) \<in> {0, 1}"
proof -
  have "lanes_ok (run h initialState cs)"
    using assms(1) lanes_ok_initial by (rule run_lanes_ok)
  with assms(2) show ?thesis
    unfolding lanes_ok_def by blast
qed

theorem lanes_in_range_witness:
  "list_all wf_call sample_calls
   \<and> games (run sample_hash initialState sample_calls) ''#0xa::7::0'' = Some sample_game
   \<and> carPosition sample_game \<in> {0, 1} \<and> lane (obstacle sample_game) \<in> {0, 1}"
proof -
  have g: "games (run sample_hash initialState sample_calls) ''#0xa::7::0'' = Some sample_game"
    by (simp add: sample_run sample_lookup)
  show ?thesis
    using wf_sample_calls g lanes_in_range [OF wf_sample_calls g] by (simp add: list_all_iff)
qed

subsection \<open>Speed in the reachable stores\<close>

lemma speed_step:
  assumes "games (state_after s (transition h s (a, m, bt))) k = Some g'"
  shows "(\<exists>g. games s k = Some g \<and> speed g' = speed g)
       \<or> (\<exists>ow sp st. a = CreateGame ow sp st \<and> speed g' = sp)
       \<or> (\<exists>gid ts. a = ResetGame gid ts \<and> speed g' = 1)"
proof (cases a)
  case (CreateGame ow sp st)
  with assms show ?thesis
    by (auto simp: createGame_def state_after_def Let_def split: if_splits)
next
  case (UserMove gid act ts)
  with assms show ?thesis
    by (auto simp: userMove_def games_lookup_def state_after_def split: option.splits if_splits)
next
  case (ResetGame gid ts)
  with assms show ?thesis
    by (auto simp: resetGame_def games_lookup_def state_after_def split: option.splits if_splits)
next
  case (GameOver gid over ts)
  with assms show ?thesis
    by (auto simp: gameOver_def games_lookup_def state_after_def split: option.splits if_splits)
next
  case (GenerateObstacleAndScoreUpdate gid ts)
  with assms show ?thesis
    by (auto simp: generateObstacleAndScoreUpdate_def games_lookup_def state_after_def Let_def split: option.splits if_splits)
qed

lemma transition_speed_ge:
  assumes "b \<le> 1" and "initialSpeed_ge b c" and "speed_ge b s"
  shows "speed_ge b (state_after s (transition h s c))"
proof -
  obtain a m bt where c: "c = (a, m, bt)" by (cases c)
  show ?thesis
    unfolding speed_ge_def
  proof (intro allI impI)
    fix k g'
    assume "games (state_after s (transition h s c)) k = Some g'"
    then have "games (state_after s (transition h s (a, m, bt))) k = Some g'" by (simp add: c)
    from speed_step [OF this] assms c show "b \<le> speed g'"
      by (auto simp: speed_ge_def)
  qed
qed

lemma run_speed_ge:
  "b \<le> 1 \<Longrightarrow> \<forall>c \<in> set cs. initialSpeed_ge b c \<Longrightarrow> speed_ge b s \<Longrightarrow> speed_ge b (run h s cs)"
  by (induction cs arbitrary: s) (simp_all add: transition_speed_ge)

text \<open>
  Claim C8. In every store reached from the initial one by calls in which every
  \<^verbatim>\<open>createGame\<close> has a positive initial speed, the speed of every game is positive. A
  transition leaves the speed of a game as it was, except that \<^verbatim>\<open>createGame\<close> sets it to
  the initial speed given and \<^verbatim>\<open>resetGame\<close> sets it to 1.
\<close>

theorem speed_positive:
  assumes "\<forall>c \<in> set cs. initialSpeed_ge 1 c" and "games (run h initialState cs) k = Some g"
  shows "0 < speed g
       \<and> (\<forall>k' g'. games (state_after s (transition h s (a, m, bt))) k' = Some g' \<longrightarrow>
             (\<exists>g0. games s k' = Some g0 \<and> speed g' = speed g0)
           \<or> (\<exists>ow sp st. a = CreateGame ow sp st \<and> speed g' = sp)
           \<or> (\<exists>gid ts. a = ResetGame gid ts \<and> speed g' = 1))"
proof -
  have "speed_ge 1 initialState"
    by (simp add: speed_ge_def initialState_def)
  with assms(1) have "speed_ge 1 (run h initialState cs)"
    by (intro run_speed_ge) simp_all
  with assms(2) have "1 \<le> speed g"
    unfolding speed_ge_def by blast
  then have "0 < speed g" by simp
  with speed_step [of s h a m bt] show ?thesis by blast
qed

theorem speed_positive_witness:
  "list_all (initialSpeed_ge 1) sample_calls
   \<and> games (run sample_hash initialState sample_calls) ''#0xa::7::0'' = Some sample_game
   \<and> 0 < speed sample_game
   \<and> games (state_after sample_store
              (transition sample_hash sample_store (ResetGame ''#0xa::7::0'' 5, ''0xa'', 8))) ''#0xa::7::0''
       = Some (sample_game\<lparr>speed := 1, score := 0, obstacle := \<lparr>lane = 0, z = - 70\<rparr>\<rparr>)
   \<and> speed (sample_game\<lparr>speed := 1, score := 0, obstacle := \<lparr>lane = 0, z = - 70\<rparr>\<rparr>) = 1"
proof -
  have g: "games (run sample_hash initialState sample_calls) ''#0xa::7::0'' = Some sample_game"
    by (simp add: sample_run sample_lookup)
  have p: "\<forall>c \<in> set sample_calls. initialSpeed_ge 1 c"
    by (simp add: sample_calls_def)
  have r: "games (state_after sample_store
              (transition sample_hash sample_store (ResetGame ''#0xa::7::0'' 5, ''0xa'', 8))) ''#0xa::7::0''
       = Some (sample_game\<lparr>speed := 1, score := 0, obstacle := \<lparr>lane = 0, z = - 70\<rparr>\<rparr>)"
    by (simp add: resetGame_def games_lookup_own [OF sample_lookup] sample_owner generateObstacles_def
        js_rem_samples state_after_simps)
       (simp add: sample_game_def)
  from speed_positive [OF p g, of sample_store "ResetGame ''#0xa::7::0'' 5" "''0xa''" 8]
  have "0 < speed sample_game" by blast
  with g p r show ?thesis by (simp add: list_all_iff)
qed

subsection \<open>Keys of the store and fresh identifiers\<close>

lemma keys_counted_initial: "keys_counted h initialState"
  by (simp add: keys_counted_def initialState_def)

lemma fresh_gameId:
  assumes "inj h" and "keys_counted h s"
  shows "h (gameId_message a t (card (dom (games s)))) \<notin> dom (games s)"
proof
  assume "h (gameId_message a t (card (dom (games s)))) \<in> dom (games s)"
  with assms(2) obtain a' t' n where n: "n < card (dom (games s))"
    and "h (gameId_message a t (card (dom (games s)))) = h (gameId_message a' t' n)"
    unfolding keys_counted_def by blast
  with assms(1) have "gameId_message a t (card (dom (games s))) = gameId_message a' t' n"
    by (simp add: inj_eq)
  then have "card (dom (games s)) = n" by (rule gameId_message_count)
  with n show False by simp
qed

lemma keys_counted_dom:
  "dom (games s') = dom (games s) \<Longrightarrow> keys_counted h s \<Longrightarrow> keys_counted h s'"
  by (simp add: keys_counted_def)

lemma keys_counted_insert:
  assumes "keys_counted h s" and "k = h (gameId_message a t (card (dom (games s))))"
    and "k \<notin> dom (games s)" and "dom (games s') = insert k (dom (games s))"
  shows "keys_counted h s'"
proof -
  from assms(1) have fin: "finite (dom (games s))" by (simp add: keys_counted_def)
  with assms(3,4) have card: "card (dom (games s')) = Suc (card (dom (games s)))" by simp
  have "\<exists>a t n. n < card (dom (games s')) \<and> k' = h (gameId_message a t n)"
    if "k' \<in> dom (games s')" for k'
  proof (cases "k' = k")
    case True
    with assms(2) card show ?thesis by auto
  next
    case False
    with that assms(4) have "k' \<in> dom (games s)" by auto
    with assms(1) obtain a' t' n where "n < card (dom (games s))" "k' = h (gameId_message a' t' n)"
      unfolding keys_counted_def by blast
    with card show ?thesis by (intro exI [of _ a'] exI [of _ t'] exI [of _ n]) simp
  qed
  with fin assms(4) show ?thesis
    unfolding keys_counted_def by simp
qed

lemma dom_unchanged:
  assumes "\<not> create_succeeds c"
  shows "dom (games (state_after s (transition h s c))) = dom (games s)"
proof -
  obtain a m bt where c: "c = (a, m, bt)" by (cases c)
  show ?thesis
  proof (cases a)
    case (CreateGame ow sp st)
    with assms c show ?thesis by (simp add: createGame_def state_after_def)
  next
    case (UserMove gid act ts)
    with c show ?thesis by (auto simp: userMove_def games_lookup_def state_after_def split: option.splits if_splits)
  next
    case (ResetGame gid ts)
    with c show ?thesis by (auto simp: resetGame_def games_lookup_def state_after_def split: option.splits if_splits)
  next
    case (GameOver gid over ts)
    with c show ?thesis by (auto simp: gameOver_def games_lookup_def state_after_def split: option.splits if_splits)
  next
    case (GenerateObstacleAndScoreUpdate gid ts)
    with c show ?thesis
      by (auto simp: generateObstacleAndScoreUpdate_def games_lookup_def state_after_def Let_def split: option.splits if_splits)
  qed
qed

lemma dom_create:
  "create_succeeds c \<Longrightarrow>
     dom (games (state_after s (transition h s c))) = insert (addressed h s c) (dom (games s))"
  by (induction c rule: create_succeeds.induct) (simp_all add: createGame_def state_after_def Let_def)

lemma addressed_create:
  "create_succeeds c \<Longrightarrow> \<exists>a t. addressed h s c = h (gameId_message a t (card (dom (games s))))"
  by (induction c rule: create_succeeds.induct) auto

lemma transition_keys_counted:
  assumes "inj h" and "keys_counted h s"
  shows "keys_counted h (state_after s (transition h s c))"
proof (cases "create_succeeds c")
  case True
  from addressed_create [OF True] obtain a t
    where k: "addressed h s c = h (gameId_message a t (card (dom (games s))))" by blast
  then have fresh: "addressed h s c \<notin> dom (games s)"
    using fresh_gameId [OF assms] by simp
  from assms(2) k fresh dom_create [OF True] show ?thesis
    by (rule keys_counted_insert)
next
  case False
  then have "dom (games (state_after s (transition h s c))) = dom (games s)"
    by (rule dom_unchanged)
  then show ?thesis
    using assms(2) by (rule keys_counted_dom)
qed

lemma run_keys_counted:
  "inj h \<Longrightarrow> keys_counted h s \<Longrightarrow> keys_counted h (run h s cs)"
  by (induction cs arbitrary: s) (simp_all add: transition_keys_counted)

lemma reachable_keys_counted: "inj h \<Longrightarrow> keys_counted h (run h initialState cs)"
  by (simp add: run_keys_counted keys_counted_initial)

lemma others_unchanged:
  "k \<noteq> addressed h s c \<Longrightarrow> games (state_after s (transition h s c)) k = games s k"
proof (induction h s c rule: addressed.induct)
  case (1 h s ow sp st msgSender bt)
  then show ?case by (simp add: createGame_def state_after_def Let_def)
next
  case (2 h s gid act ts msgSender bt)
  then show ?case by (simp add: userMove_def games_lookup_def state_after_def split: option.splits)
next
  case (3 h s gid ts msgSender bt)
  then show ?case by (simp add: resetGame_def games_lookup_def state_after_def split: option.splits)
next
  case (4 h s gid over ts msgSender bt)
  then show ?case by (simp add: gameOver_def games_lookup_def state_after_def split: option.splits)
next
  case (5 h s gid ts msgSender bt)
  then show ?case by (simp add: generateObstacleAndScoreUpdate_def games_lookup_def state_after_def Let_def split: option.splits)
qed

lemma dom_grows: "dom (games s) \<subseteq> dom (games (state_after s (transition h s c)))"
  by (cases "create_succeeds c") (auto simp: dom_create dom_unchanged)

text \<open>
  Claim C4. In a store reached from the initial one, with a hash that has no collisions, a
  \<^verbatim>\<open>createGame\<close> whose caller equals the owner given (after lower-casing) inserts exactly one
  game: its key is the hash of the message built from the caller, the block timestamp and the
  number of games, that key was not in the store, the new game has \<^verbatim>\<open>carPosition\<close> 1, the
  speed given, score -1, the obstacle in lane (block timestamp mod 2) at distance -70,
  \<^verbatim>\<open>isGameOver\<close> false, the \<^verbatim>\<open>startedAt\<close> given and \<^verbatim>\<open>endedAt\<close> null; one
  \<^verbatim>\<open>GameCreated\<close> event carries the key; every game that was in the store is still there,
  unchanged.
\<close>

theorem createGame_effect:
  assumes "inj h" and "s = run h initialState cs" and "toLowerCase msgSender = toLowerCase ow"
    and "gid = h (gameId_message msgSender bt (card (dom (games s))))"
  shows "gid \<notin> dom (games s)
       \<and> createGame h s ow sp st msgSender bt =
           (s\<lparr>games := (games s)(gid \<mapsto>
                \<lparr>gameId = gid, owner = ow, carPosition = 1, speed = sp, score = - 1,
                 obstacle = \<lparr>lane = js_rem bt 2, z = - 70\<rparr>, isGameOver = False,
                 startedAt = st, endedAt = None\<rparr>)\<rparr>,
            [Emit ''GameCreated'' (VStr gid)])
       \<and> (0 \<le> bt \<longrightarrow> js_rem bt 2 = bt mod 2)
       \<and> dom (games (fst (createGame h s ow sp st msgSender bt))) = insert gid (dom (games s))
       \<and> card (dom (games (fst (createGame h s ow sp st msgSender bt)))) = card (dom (games s)) + 1
       \<and> (\<forall>k g. games s k = Some g \<longrightarrow> games (fst (createGame h s ow sp st msgSender bt)) k = Some g)"
proof -
  have inv: "keys_counted h s"
    using assms(1,2) by (simp add: reachable_keys_counted)
  then have fin: "finite (dom (games s))" by (simp add: keys_counted_def)
  have fresh: "gid \<notin> dom (games s)"
    using fresh_gameId [OF assms(1) inv] assms(4) by simp
  have res: "createGame h s ow sp st msgSender bt =
           (s\<lparr>games := (games s)(gid \<mapsto>
                \<lparr>gameId = gid, owner = ow, carPosition = 1, speed = sp, score = - 1,
                 obstacle = \<lparr>lane = js_rem bt 2, z = - 70\<rparr>, isGameOver = False,
                 startedAt = st, endedAt = None\<rparr>)\<rparr>,
            [Emit ''GameCreated'' (VStr gid)])"
    using assms(3,4) by (simp add: createGame_def generateObstacles_def Let_def)
  have d: "dom (games (fst (createGame h s ow sp st msgSender bt))) = insert gid (dom (games s))"
    by (simp add: res)
  have c: "card (dom (games (fst (createGame h s ow sp st msgSender bt)))) = card (dom (games s)) + 1"
    using fin fresh by (simp add: d)
  have o: "games (fst (createGame h s ow sp st msgSender bt)) k = Some g" if "games s k = Some g" for k g
  proof -
    from that fresh have "k \<noteq> gid" by auto
    with that show ?thesis by (simp add: res)
  qed
  from fresh res d c o show ?thesis
    by (simp add: js_rem_nonneg)
qed

theorem createGame_effect_witness:
  "inj sample_hash
   \<and> sample_store = run sample_hash initialState sample_calls
   \<and> toLowerCase ''0xa'' = toLowerCase ''0xA''
   \<and> ''#0xa::8::1'' = sample_hash (gameId_message ''0xa'' 8 (card (dom (games sample_store))))
   \<and> ''#0xa::8::1'' \<notin> dom (games sample_store)
   \<and> createGame sample_hash sample_store ''0xA'' 3 200 ''0xa'' 8 =
       (sample_store\<lparr>games := (games sample_store)(''#0xa::8::1'' \<mapsto>
            \<lparr>gameId = ''#0xa::8::1'', owner = ''0xA'', carPosition = 1, speed = 3, score = - 1,
             obstacle = \<lparr>lane = 0, z = - 70\<rparr>, isGameOver = False,
             startedAt = 200, endedAt = None\<rparr>)\<rparr>,
        [Emit ''GameCreated'' (VStr ''#0xa::8::1'')])
   \<and> card (dom (games (fst (createGame sample_hash sample_store ''0xA'' 3 200 ''0xa'' 8)))) = 2"
proof -
  have r: "sample_store = run sample_hash initialState sample_calls"
    by (simp add: sample_run)
  have l: "toLowerCase ''0xa'' = toLowerCase ''0xA''"
    by (simp add: lower_samples)
  have sh8: "show_int 8 = ''8''"
    by (simp add: show_int_def show_nat.simps digit_char_def)
  have sh1: "show_nat (Suc 0) = ''1''"
    by (simp add: show_nat.simps digit_char_def)
  have k: "''#0xa::8::1'' = sample_hash (gameId_message ''0xa'' 8 (card (dom (games sample_store))))"
    by (simp add: card_sample_store gameId_message_def sample_hash_def sh8 sh1)
  note t = createGame_effect [OF inj_sample_hash r l k, of 3 200]
  from t have c1: "''#0xa::8::1'' \<notin> dom (games sample_store)"
    by (rule conjunct1)
  from t have c2: "createGame sample_hash sample_store ''0xA'' 3 200 ''0xa'' 8 =
       (sample_store\<lparr>games := (games sample_store)(''#0xa::8::1'' \<mapsto>
            \<lparr>gameId = ''#0xa::8::1'', owner = ''0xA'', carPosition = 1, speed = 3, score = - 1,
             obstacle = \<lparr>lane = 0, z = - 70\<rparr>, isGameOver = False,
             startedAt = 200, endedAt = None\<rparr>)\<rparr>,
        [Emit ''GameCreated'' (VStr ''#0xa::8::1'')])"
    by (simp add: js_rem_samples)
  from t have "card (dom (games (fst (createGame sample_hash sample_store ''0xA'' 3 200 ''0xa'' 8)))) =
      card (dom (games sample_store)) + 1"
    by blast
  then have c3: "card (dom (games (fst (createGame sample_hash sample_store ''0xA'' 3 200 ''0xa'' 8)))) = 2"
    by (simp add: card_sample_store)
  from inj_sample_hash r l k c1 c2 c3 show ?thesis
    by (intro conjI)
qed

text \<open>
  Claim C10. A transition removes no key from the store and leaves every game other than the
  addressed one as it was. The key set is unchanged unless the call is a \<^verbatim>\<open>createGame\<close> that
  passes its guard; such a call, in a store reached from the initial one and with a hash that
  has no collisions, adds exactly one key.
\<close>

theorem store_frame:
  "dom (games s) \<subseteq> dom (games (state_after s (transition h s c)))
   \<and> (\<forall>k. k \<noteq> addressed h s c \<longrightarrow> games (state_after s (transition h s c)) k = games s k)
   \<and> (\<not> create_succeeds c \<longrightarrow> dom (games (state_after s (transition h s c))) = dom (games s))
   \<and> (create_succeeds c \<and> inj h \<and> s = run h initialState cs \<longrightarrow>
        addressed h s c \<notin> dom (games s)
      \<and> dom (games (state_after s (transition h s c))) = insert (addressed h s c) (dom (games s))
      \<and> card (dom (games (state_after s (transition h s c)))) = card (dom (games s)) + 1)"
proof -
  have grow: "addressed h s c \<notin> dom (games s)
      \<and> dom (games (state_after s (transition h s c))) = insert (addressed h s c) (dom (games s))
      \<and> card (dom (games (state_after s (transition h s c)))) = card (dom (games s)) + 1"
    if ok: "create_succeeds c" and h: "inj h" and s: "s = run h initialState cs"
  proof -
    have inv: "keys_counted h s"
      using h s by (simp add: reachable_keys_counted)
    then have fin: "finite (dom (games s))" by (simp add: keys_counted_def)
    from addressed_create [OF ok] obtain a t
      where "addressed h s c = h (gameId_message a t (card (dom (games s))))" by blast
    then have fresh: "addressed h s c \<notin> dom (games s)"
      using fresh_gameId [OF h inv] by simp
    with fin show ?thesis
      by (simp add: dom_create [OF ok])
  qed
  show ?thesis
    using dom_grows [of s h c] others_unchanged [of _ h s c] dom_unchanged [of c s h] grow
    by blast
qed

theorem store_frame_witness:
  "create_succeeds (CreateGame ''0xA'' 3 200, ''0xa'', 8)
   \<and> inj sample_hash
   \<and> sample_store = run sample_hash initialState sample_calls
   \<and> addressed sample_hash sample_store (CreateGame ''0xA'' 3 200, ''0xa'', 8) = ''#0xa::8::1''
   \<and> ''#0xa::8::1'' \<notin> dom (games sample_store)
   \<and> dom (games (state_after sample_store (transition sample_hash sample_store (CreateGame ''0xA'' 3 200, ''0xa'', 8)))) =
       {''#0xa::8::1'', ''#0xa::7::0''}
   \<and> ''#0xa::7::0'' \<noteq> ''#0xa::8::1''
   \<and> games (state_after sample_store (transition sample_hash sample_store (CreateGame ''0xA'' 3 200, ''0xa'', 8))) ''#0xa::7::0'' =
       Some sample_game
   \<and> \<not> create_succeeds (UserMove ''#0xa::7::0'' ''moveLeft'' 5, ''0xa'', 8)
   \<and> dom (games (state_after sample_store (transition sample_hash sample_store (UserMove ''#0xa::7::0'' ''moveLeft'' 5, ''0xa'', 8)))) =
       {''#0xa::7::0''}"
proof -
  let ?create = "(CreateGame ''0xA'' 3 200, ''0xa'', 8) :: call"
  let ?move = "(UserMove ''#0xa::7::0'' ''moveLeft'' 5, ''0xa'', 8) :: call"
  have ok: "create_succeeds ?create"
    by (simp add: lower_samples)
  have r: "sample_store = run sample_hash initialState sample_calls"
    by (simp add: sample_run)
  have sh: "show_int 8 = ''8''" "show_nat (Suc 0) = ''1''"
    by (simp_all add: show_int_def show_nat.simps digit_char_def)
  have ad: "addressed sample_hash sample_store ?create = ''#0xa::8::1''"
    by (simp add: card_sample_store gameId_message_def sample_hash_def sh)
  have d: "dom (games sample_store) = {''#0xa::7::0''}"
    by (simp add: sample_store_def)
  have ne: "''#0xa::7::0'' \<noteq> ''#0xa::8::1''" by simp
  have ne': "''#0xa::7::0'' \<noteq> addressed sample_hash sample_store ?create"
    unfolding ad by (rule ne)
  have nc: "\<not> create_succeeds ?move" by simp
  have pre: "create_succeeds ?create \<and> inj sample_hash
      \<and> sample_store = run sample_hash initialState sample_calls"
    using ok inj_sample_hash r by (intro conjI)
  note t1 = store_frame [of sample_store sample_hash ?create sample_calls]
  note t2 = store_frame [of sample_store sample_hash ?move sample_calls]
  note grow = t1 [THEN conjunct2, THEN conjunct2, THEN conjunct2, THEN mp, OF pre]
  have c1: "''#0xa::8::1'' \<notin> dom (games sample_store)"
    using grow [THEN conjunct1] unfolding ad .
  have c2: "dom (games (state_after sample_store (transition sample_hash sample_store ?create))) = {''#0xa::8::1'', ''#0xa::7::0''}"
    using grow [THEN conjunct2, THEN conjunct1] unfolding ad d .
  have c3: "games (state_after sample_store (transition sample_hash sample_store ?create)) ''#0xa::7::0'' = Some sample_game"
    using t1 [THEN conjunct2, THEN conjunct1, THEN spec, of "''#0xa::7::0''", THEN mp, OF ne']
    unfolding sample_lookup .
  have c4: "dom (games (state_after sample_store (transition sample_hash sample_store ?move))) = {''#0xa::7::0''}"
    using t2 [THEN conjunct2, THEN conjunct2, THEN conjunct1, THEN mp, OF nc]
    unfolding d .
  from ok inj_sample_hash r ad c1 c2 ne c3 nc c4 show ?thesis
    by (intro conjI)
qed

subsection \<open>Scores beyond the range where the addition is exact\<close>

lemma run_append: "run h s (cs @ ds) = run h (run h s cs) ds"
  by (induction cs arbitrary: s) simp_all

lemma score_call_result:
  assumes "games s ''#0xa::7::0'' = Some g" and "toLowerCase (owner g) = toLowerCase ''0xa''"
  shows "transition h s score_call =
           Inr (s\<lparr>games := (games s)(''#0xa::7::0'' \<mapsto>
                  g\<lparr>obstacle := \<lparr>lane = 0, z = - 70\<rparr>, score := js_add (score g) (speed g)\<rparr>)\<rparr>,
                [Emit ''ObstacleGenerated'' (VStr ''New obstacle generated in lane 0''),
                 Emit ''ScoreUpdated''
                   (VTemplate [Lit ''Game '', Lit ''#0xa::7::0'', Lit '': Score is now '',
                               Num (js_add (score g) (speed g)), Lit ''.''])])"
  using assms
  by (simp add: score_call_def generateObstacleAndScoreUpdate_def games_lookup_own
      generateObstacles_def js_rem_samples show_samples Let_def)

lemma score_call_step:
  assumes "games s ''#0xa::7::0'' = Some g" and "toLowerCase (owner g) = toLowerCase ''0xa''"
  shows "state_after s (transition h s score_call) =
           s\<lparr>games := (games s)(''#0xa::7::0'' \<mapsto>
               g\<lparr>obstacle := \<lparr>lane = 0, z = - 70\<rparr>, score := js_add (score g) (speed g)\<rparr>)\<rparr>"
  by (simp add: score_call_result [OF assms] state_after_simps)

lemma run_score_calls:
  assumes "games s ''#0xa::7::0'' = Some g" and "toLowerCase (owner g) = toLowerCase ''0xa''"
    and "speed g = 1" and "- 1 \<le> score g" and "score g + int n \<le> 9007199254740992"
  shows "\<exists>g'. games (run h s (replicate n score_call)) ''#0xa::7::0'' = Some g'
            \<and> owner g' = owner g \<and> speed g' = 1 \<and> score g' = score g + int n"
  using assms
proof (induction n arbitrary: s g)
  case 0
  then show ?case by simp
next
  case (Suc n)
  let ?g1 = "g\<lparr>obstacle := \<lparr>lane = 0, z = - 70\<rparr>, score := js_add (score g) (speed g)\<rparr>"
  let ?s1 = "s\<lparr>games := (games s)(''#0xa::7::0'' \<mapsto> ?g1)\<rparr>"
  have step: "state_after s (transition h s score_call) = ?s1"
    using Suc.prems(1,2) by (rule score_call_step)
  have exact1: "js_add (score g) 1 = score g + 1"
    using Suc.prems(4,5) by (simp add: js_add_exact)
  then have exact: "js_add (score g) (speed g) = score g + 1"
    by (simp add: Suc.prems(3))
  have l1: "games ?s1 ''#0xa::7::0'' = Some ?g1" by simp
  have o1: "toLowerCase (owner ?g1) = toLowerCase ''0xa''"
    using Suc.prems(2) by simp
  have "\<exists>g'. games (run h ?s1 (replicate n score_call)) ''#0xa::7::0'' = Some g'
            \<and> owner g' = owner ?g1 \<and> speed g' = 1 \<and> score g' = score ?g1 + int n"
    using l1 o1 Suc.prems(3,4,5) by (intro Suc.IH) (simp_all add: exact1)
  then obtain g' where g': "games (run h ?s1 (replicate n score_call)) ''#0xa::7::0'' = Some g'"
    "owner g' = owner ?g1" "speed g' = 1" "score g' = score ?g1 + int n"
    by blast
  have "games (run h s (replicate (Suc n) score_call)) ''#0xa::7::0'' = Some g'"
    by (simp add: step g'(1))
  moreover have "owner g' = owner g" using g'(2) by simp
  moreover have "score g' = score g + int (Suc n)" using g'(4) by (simp add: exact)
  ultimately show ?case using g'(3) by blast
qed

lemma unit_speed_create:
  "run sample_hash initialState [(CreateGame ''0xA'' 1 100, ''0xa'', 7)] =
     \<lparr>games = [''#0xa::7::0'' \<mapsto> sample_game\<lparr>speed := 1\<rparr>]\<rparr>"
  by (simp add: sample_game_def createGame_def initialState_def
      lower_samples gameId_message_def show_samples generateObstacles_def js_rem_samples
      sample_hash_def state_after_simps Let_def)

lemma unit_speed_run:
  "\<exists>g'. games (run sample_hash initialState unit_speed_calls) ''#0xa::7::0'' = Some g'
        \<and> owner g' = ''0xA'' \<and> speed g' = 1 \<and> score g' = 9007199254740992"
proof -
  let ?s = "\<lparr>games = [''#0xa::7::0'' \<mapsto> sample_game\<lparr>speed := 1\<rparr>]\<rparr> :: AppState"
  let ?g = "sample_game\<lparr>speed := 1\<rparr>"
  have r: "run sample_hash initialState unit_speed_calls =
      run sample_hash ?s (replicate 9007199254740993 score_call)"
    using run_append [of sample_hash initialState "[(CreateGame ''0xA'' 1 100, ''0xa'', 7)]"
        "replicate 9007199254740993 score_call"]
    by (simp only: unit_speed_calls_def unit_speed_create append_Cons append_Nil)
  have l: "games ?s ''#0xa::7::0'' = Some ?g" by simp
  have o: "toLowerCase (owner ?g) = toLowerCase ''0xa''"
    using sample_owner by simp
  have f: "speed ?g = 1" "- 1 \<le> score ?g" "score ?g + int 9007199254740993 \<le> 9007199254740992"
    "owner ?g = ''0xA''" "score ?g + int 9007199254740993 = 9007199254740992"
    by (simp_all add: sample_game_def)
  from run_score_calls [OF l o f(1,2,3), of sample_hash]
  show ?thesis
    unfolding r f(4,5) .
qed

text \<open>
  Counterexample to claim C3 as stated: beyond \<open>2^53\<close> the score does not change by exactly
  the speed. A game created with the positive initial speed \<open>2^53 - 1\<close> has score
  \<open>2^53 - 2\<close> after one score update, and the next one stores 18014398509481980, which is
  not the sum 18014398509481981. A game created with initial speed 1 has score \<open>2^53\<close> after
  \<open>2^53 + 1\<close> score updates, and the next one passes the guards, emits its two events and
  leaves the score at \<open>2^53\<close>: no strict increase.
\<close>

theorem score_update_rounding_counterexample:
  "list_all (initialSpeed_ge 1) large_speed_calls
   \<and> list_all wf_call large_speed_calls
   \<and> map_option owner (games (run sample_hash initialState large_speed_calls) ''#0xa::7::0'') = Some ''0xA''
   \<and> map_option speed (games (run sample_hash initialState large_speed_calls) ''#0xa::7::0'') =
       Some 9007199254740991
   \<and> map_option score (games (run sample_hash initialState large_speed_calls) ''#0xa::7::0'') =
       Some 9007199254740990
   \<and> map_option score (games (run sample_hash initialState (large_speed_calls @ [score_call])) ''#0xa::7::0'') =
       Some 18014398509481980
   \<and> (9007199254740990 :: int) + 9007199254740991 = 18014398509481981
   \<and> list_all (initialSpeed_ge 1) unit_speed_calls
   \<and> list_all wf_call unit_speed_calls
   \<and> map_option speed (games (run sample_hash initialState unit_speed_calls) ''#0xa::7::0'') = Some 1
   \<and> map_option score (games (run sample_hash initialState unit_speed_calls) ''#0xa::7::0'') =
       Some 9007199254740992
   \<and> transition sample_hash (run sample_hash initialState unit_speed_calls) score_call =
       Inr (run sample_hash initialState (unit_speed_calls @ [score_call]),
            [Emit ''ObstacleGenerated'' (VStr ''New obstacle generated in lane 0''),
             Emit ''ScoreUpdated''
               (VTemplate [Lit ''Game '', Lit ''#0xa::7::0'', Lit '': Score is now '',
                           Num 9007199254740992, Lit ''.''])])
   \<and> map_option score (games (run sample_hash initialState (unit_speed_calls @ [score_call])) ''#0xa::7::0'') =
       Some 9007199254740992"
proof -
  have big: "run sample_hash initialState large_speed_calls =
      \<lparr>games = [''#0xa::7::0'' \<mapsto>
         sample_game\<lparr>speed := 9007199254740991, obstacle := \<lparr>lane = 0, z = - 70\<rparr>,
                      score := 9007199254740990\<rparr>]\<rparr>"
  proof -
    have c: "run sample_hash initialState [(CreateGame ''0xA'' 9007199254740991 100, ''0xa'', 7)] =
        \<lparr>games = [''#0xa::7::0'' \<mapsto> sample_game\<lparr>speed := 9007199254740991\<rparr>]\<rparr>"
      by (simp add: sample_game_def createGame_def initialState_def
          lower_samples gameId_message_def show_samples generateObstacles_def js_rem_samples
          sample_hash_def state_after_simps Let_def)
    have a: "js_add (- 1) 9007199254740991 = 9007199254740990"
      by (simp add: js_add_exact)
    have "run sample_hash initialState large_speed_calls =
        run sample_hash (run sample_hash initialState [(CreateGame ''0xA'' 9007199254740991 100, ''0xa'', 7)])
          [score_call]"
      by (simp add: large_speed_calls_def)
    also have "\<dots> = \<lparr>games = [''#0xa::7::0'' \<mapsto>
         sample_game\<lparr>speed := 9007199254740991, obstacle := \<lparr>lane = 0, z = - 70\<rparr>,
                      score := 9007199254740990\<rparr>]\<rparr>"
      unfolding c
      using score_call_step [of "\<lparr>games = [''#0xa::7::0'' \<mapsto> sample_game\<lparr>speed := 9007199254740991\<rparr>]\<rparr>"
          "sample_game\<lparr>speed := 9007199254740991\<rparr>" sample_hash] sample_owner
      by (simp add: a) (simp add: sample_game_def a)
    finally show ?thesis .
  qed
  have p1: "list_all (initialSpeed_ge 1) large_speed_calls \<and> list_all wf_call large_speed_calls"
    by (simp add: large_speed_calls_def score_call_def)
  have b1: "map_option owner (games (run sample_hash initialState large_speed_calls) ''#0xa::7::0'') = Some ''0xA''
      \<and> map_option speed (games (run sample_hash initialState large_speed_calls) ''#0xa::7::0'') =
           Some 9007199254740991
      \<and> map_option score (games (run sample_hash initialState large_speed_calls) ''#0xa::7::0'') =
           Some 9007199254740990"
    unfolding big by (simp add: sample_game_def)
  have b2: "map_option score (games (run sample_hash initialState (large_speed_calls @ [score_call])) ''#0xa::7::0'') =
       Some 18014398509481980"
    unfolding run_append big
    using score_call_step [of "\<lparr>games = [''#0xa::7::0'' \<mapsto>
         sample_game\<lparr>speed := 9007199254740991, obstacle := \<lparr>lane = 0, z = - 70\<rparr>,
                      score := 9007199254740990\<rparr>]\<rparr>"
         "sample_game\<lparr>speed := 9007199254740991, obstacle := \<lparr>lane = 0, z = - 70\<rparr>,
                      score := 9007199254740990\<rparr>" sample_hash] sample_owner
    by (simp add: js_add_samples)
  have p2: "list_all (initialSpeed_ge 1) unit_speed_calls \<and> list_all wf_call unit_speed_calls"
    by (simp add: unit_speed_calls_def score_call_def list_all_iff)
  from unit_speed_run obtain g' where g': "games (run sample_hash initialState unit_speed_calls) ''#0xa::7::0'' = Some g'"
    "owner g' = ''0xA''" "speed g' = 1" "score g' = 9007199254740992"
    by blast
  have u1: "map_option speed (games (run sample_hash initialState unit_speed_calls) ''#0xa::7::0'') = Some 1
      \<and> map_option score (games (run sample_hash initialState unit_speed_calls) ''#0xa::7::0'') =
          Some 9007199254740992"
    by (simp add: g')
  have o': "toLowerCase (owner g') = toLowerCase ''0xa''"
    by (simp add: g'(2) lower_samples)
  have last: "run sample_hash initialState (unit_speed_calls @ [score_call]) =
      state_after (run sample_hash initialState unit_speed_calls)
        (transition sample_hash (run sample_hash initialState unit_speed_calls) score_call)"
    by (simp add: run_append)
  have u3: "transition sample_hash (run sample_hash initialState unit_speed_calls) score_call =
       Inr (run sample_hash initialState (unit_speed_calls @ [score_call]),
            [Emit ''ObstacleGenerated'' (VStr ''New obstacle generated in lane 0''),
             Emit ''ScoreUpdated''
               (VTemplate [Lit ''Game '', Lit ''#0xa::7::0'', Lit '': Score is now '',
                           Num 9007199254740992, Lit ''.''])])"
    unfolding last score_call_step [OF g'(1) o']
    using score_call_result [OF g'(1) o', of sample_hash]
    by (simp add: g'(3,4) js_add_samples)
  have u2: "map_option score (games (run sample_hash initialState (unit_speed_calls @ [score_call])) ''#0xa::7::0'') =
       Some 9007199254740992"
    unfolding last score_call_step [OF g'(1) o']
    by (simp add: g'(3,4) js_add_samples)
  from p1 b1 b2 p2 u1 u2 u3 show ?thesis by simp
qed

end
